theory Spec2Isabelle
  imports Main
begin

section \<open>The migration set of lib/set.js\<close>

text \<open>
  The module keeps an ordered list of migrations and a cursor \<open>pos\<close>, loads the cursor
  from one row of a database table, runs a slice of the migrations one after the other
  and writes the cursor back. The embedding below follows the file function by function.
  Callbacks are kept as continuations: a function that the source calls with a callback
  takes, here, a function from the callback's arguments to a state transformer.
\<close>

subsection \<open>Values\<close>

text \<open>
  An error object. Only its \<open>code\<close> property is ever inspected (line 193); the message
  is carried along. An error argument of a callback is \<open>js_error option\<close>: \<open>None\<close> stands
  for a falsy first argument (\<open>null\<close>, \<open>undefined\<close>), \<open>Some e\<close> for an error object.
\<close>

record js_error =
  err_code :: "string option"
  err_message :: string

text \<open>The result of \<open>JSON.parse\<close>.\<close>

datatype json =
  JNull | JBool bool | JNum int | JStr string | JArr "json list" | JObj "(string \<times> json) list"

text \<open>The two directions \<open>'up'\<close> and \<open>'down'\<close> that \<open>up\<close> and \<open>down\<close> pass to \<open>migrate\<close>.\<close>

datatype direction = Up | Down

text \<open>
  A migration object: its title and its two operations, the properties \<open>up\<close> and
  \<open>down\<close> of the source (named \<open>up_step\<close> and \<open>down_step\<close> here, \<open>up\<close> and \<open>down\<close>
  being the methods of the set). An operation acts on the outside world \<open>'w\<close> (the
  schema it changes) and calls its callback once, with an error or without one.
\<close>

record 'w migration =
  title :: string
  up_step :: "'w \<Rightarrow> js_error option \<times> 'w"
  down_step :: "'w \<Rightarrow> js_error option \<times> 'w"

text \<open>The row \<open>id=1\<close> of table \<open>migration\<close>, and the object \<open>load\<close> hands to its callback.\<close>

record db_row =
  row_migrations :: string
  row_pos :: int

record loaded =
  obj_migrations :: json
  obj_pos :: int

text \<open>What an observer sees: the events the set emits.\<close>

datatype 'w event =
  EvLoad
| EvMigration "'w migration" direction
| EvComplete
| EvSave
| EvError js_error

text \<open>
  The state the code works on. \<open>migrations\<close>, \<open>path\<close> and \<open>pos\<close> are the fields of the
  \<open>Set\<close> object; \<open>db\<close> says whether the module variable \<open>db\<close> holds a connection;
  \<open>store\<close> is the row \<open>id=1\<close> of the table, if there is one; \<open>world\<close> is what the
  migrations act on. The remaining fields record what the run does: the events emitted,
  every call \<open>migration[direction](...)\<close> with the value of \<open>this.pos\<close> at the moment of
  the call, the lines written by \<open>console.error\<close>, and the status of \<open>process.exit\<close>.
\<close>

record 'w sys =
  migrations :: "'w migration list"
  path :: string
  pos :: int
  db :: bool
  store :: "db_row option"
  world :: "'w"
  events :: "'w event list"
  invoked :: "('w migration \<times> direction \<times> int) list"
  console :: "string list"
  exit_code :: "int option"

text \<open>
  What the module gets from outside: the replies of the mysql connection (to
  \<open>db.connect\<close>, to the \<open>SELECT\<close> and to the \<open>INSERT\<close>) and the two JSON built-ins.
  \<open>JSON.parse\<close> throws a \<open>SyntaxError\<close>, which has no \<open>code\<close> property: the parser
  returns the message only.
\<close>

record 'w env =
  connect_err :: "js_error option"
  select_err :: "js_error option"
  insert_err :: "js_error option"
  json_parse :: "string \<Rightarrow> string + json"
  json_stringify :: "'w migration list \<Rightarrow> string"

subsection \<open>Built-ins\<close>

text \<open>
  \<open>Array.prototype.slice(start, end)\<close> on integers: a negative index counts from the
  end, both indices are clamped to the array, and an empty range gives the empty array.
\<close>

definition js_slice :: "'a list \<Rightarrow> int \<Rightarrow> int \<Rightarrow> 'a list" where
  "js_slice xs start end =
     (let len = int (length xs);
          k = (if start < 0 then max (len + start) 0 else min start len);
          final = (if end < 0 then max (len + end) 0 else min end len);
          count = max (final - k) 0
      in take (nat count) (drop (nat k) xs))"

text \<open>\<open>Array.prototype.shift\<close>: the first element (\<open>undefined\<close> on an empty array) and the rest.\<close>

fun shift :: "'a list \<Rightarrow> 'a option \<times> 'a list" where
  "shift [] = (None, [])"
| "shift (x # xs) = (Some x, xs)"

definition emit :: "'w event \<Rightarrow> 'w sys \<Rightarrow> 'w sys" where
  "emit ev s = s\<lparr>events := events s @ [ev]\<rparr>"

definition console_error :: "string \<Rightarrow> 'w sys \<Rightarrow> 'w sys" where
  "console_error line s = s\<lparr>console := console s @ [line]\<rparr>"

definition process_exit :: "int \<Rightarrow> 'w sys \<Rightarrow> 'w sys" where
  "process_exit n s = s\<lparr>exit_code := Some n\<rparr>"

text \<open>\<open>!migrationName\<close>: the argument is missing or the empty string.\<close>

fun falsy :: "string option \<Rightarrow> bool" where
  "falsy None = True"
| "falsy (Some t) = (t = [])"

subsection \<open>Connection, save and load (lines 54 to 157)\<close>

definition connectDb :: "'w env \<Rightarrow> ('w sys \<Rightarrow> 'w sys) \<Rightarrow> 'w sys \<Rightarrow> 'w sys" where
  "connectDb env fn s =
     (let s1 = s\<lparr>db := True\<rparr>
      in case connect_err env of
           Some err \<Rightarrow> emit (EvError err) s1
         | None \<Rightarrow> fn s1)"

definition disconnectDb :: "js_error option \<Rightarrow> 'w sys \<Rightarrow> 'w sys" where
  "disconnectDb err s =
     (case err of
        Some e \<Rightarrow> emit (EvError e) s
      | None \<Rightarrow> emit EvSave s)"

definition saveToDatabase :: "'w env \<Rightarrow> 'w sys \<Rightarrow> 'w sys" where
  "saveToDatabase env s =
     (let params = \<lparr>row_migrations = json_stringify env (migrations s), row_pos = pos s\<rparr>
      in case insert_err env of
           Some e \<Rightarrow> disconnectDb (Some e) s
         | None \<Rightarrow> disconnectDb None (s\<lparr>store := Some params\<rparr>))"

definition save :: "'w env \<Rightarrow> 'w sys \<Rightarrow> 'w sys" where
  "save env s =
     (if \<not> db s then connectDb env (saveToDatabase env) s
      else saveToDatabase env s)"

definition loadFromDatabase ::
  "'w env \<Rightarrow> (js_error + loaded \<Rightarrow> 'w sys \<Rightarrow> 'w sys) \<Rightarrow> 'w sys \<Rightarrow> 'w sys" where
  "loadFromDatabase env fn s =
     (case select_err env of
        Some err \<Rightarrow> fn (Inl err) s
      | None \<Rightarrow>
          (let result = (case store s of
                           Some r \<Rightarrow> r
                         | None \<Rightarrow> \<lparr>row_migrations = ''[]'', row_pos = 0\<rparr>)
           in case json_parse env (row_migrations result) of
                Inl msg \<Rightarrow> fn (Inl \<lparr>err_code = None, err_message = msg\<rparr>) s
              | Inr j \<Rightarrow> fn (Inr \<lparr>obj_migrations = j, obj_pos = row_pos result\<rparr>) s))"

definition load ::
  "'w env \<Rightarrow> (js_error + loaded \<Rightarrow> 'w sys \<Rightarrow> 'w sys) \<Rightarrow> 'w sys \<Rightarrow> 'w sys" where
  "load env fn s = connectDb env (loadFromDatabase env fn) (emit EvLoad s)"

subsection \<open>The run (lines 166 to 264)\<close>

text \<open>The loop of \<open>positionOfMigration\<close>, from index \<open>i\<close> on.\<close>

fun position_loop :: "'w migration list \<Rightarrow> string \<Rightarrow> int \<Rightarrow> int" where
  "position_loop [] filename i = - 1"
| "position_loop (m # ms) filename i =
     (if title m = filename then i else position_loop ms filename (i + 1))"

definition positionOfMigration :: "'w migration list \<Rightarrow> string \<Rightarrow> int" where
  "positionOfMigration ms filename = position_loop ms filename 0"

text \<open>\<open>migration[direction]\<close>.\<close>

fun step_of :: "direction \<Rightarrow> 'w migration \<Rightarrow> 'w \<Rightarrow> js_error option \<times> 'w" where
  "step_of Up m = up_step m"
| "step_of Down m = down_step m"

text \<open>
  The inner function \<open>next(err, migration)\<close> of \<open>_migrate\<close>. Its free variables are
  arguments here: the direction, and the local array \<open>migrations\<close> that each call
  shortens by \<open>shift\<close>.
\<close>

function next_step ::
  "'w env \<Rightarrow> direction \<Rightarrow> js_error option \<Rightarrow> 'w migration option \<Rightarrow> 'w migration list
     \<Rightarrow> 'w sys \<Rightarrow> 'w sys" where
  "next_step env direction (Some e) migration queue s = emit (EvError e) s"
| "next_step env direction None None queue s = save env (emit EvComplete s)"
| "next_step env direction None (Some m) queue s =
     (let s1 = emit (EvMigration m direction) s;
          r = step_of direction m (world s1);
          s2 = s1\<lparr>world := snd r, invoked := invoked s1 @ [(m, direction, pos s1)]\<rparr>
      in next_step env direction (fst r) (fst (shift queue)) (snd (shift queue)) s2)"
  by pat_completeness auto
termination
proof (relation "measure (\<lambda>(env, direction, err, migration, queue, s).
        (case migration of None \<Rightarrow> 0 | Some m \<Rightarrow> Suc (length queue)))", goal_cases)
  case 1
  show ?case by simp
next
  case (2 env direction m queue s)
  show ?case by (cases queue) simp_all
qed

text \<open>The value of \<open>migrationPos\<close> after lines 225 to 227.\<close>

definition target_position :: "direction \<Rightarrow> 'w migration list \<Rightarrow> string option \<Rightarrow> int" where
  "target_position direction ms migrationName =
     (if falsy migrationName then (if direction = Up then int (length ms) else 0)
      else positionOfMigration ms (the migrationName))"

text \<open>The array \<open>migrations\<close> that the \<open>switch\<close> of lines 232 to 241 computes.\<close>

fun run_slice :: "direction \<Rightarrow> 'w migration list \<Rightarrow> int \<Rightarrow> int \<Rightarrow> 'w migration list" where
  "run_slice Up ms p migrationPos = js_slice ms p (migrationPos + 1)"
| "run_slice Down ms p migrationPos = rev (js_slice ms migrationPos p)"

text \<open>
  \<open>this.pos += migrations.length\<close> and \<open>this.pos -= migrations.length\<close>. The
  position of the source is a double, and the sum below is the exact one: the two agree
  for integers below \<open>2^53\<close> in absolute value, which covers every position between
  \<open>0\<close> and the number of migrations.
\<close>

fun moved_pos :: "direction \<Rightarrow> int \<Rightarrow> nat \<Rightarrow> int" where
  "moved_pos Up p n = p + int n"
| "moved_pos Down p n = p - int n"

text \<open>\<open>Set.prototype._migrate\<close>.\<close>

definition underscore_migrate ::
  "'w env \<Rightarrow> direction \<Rightarrow> string option \<Rightarrow> 'w sys \<Rightarrow> 'w sys" where
  "underscore_migrate env direction migrationName s =
     (let migrationPos = target_position direction (migrations s) migrationName
      in if \<not> falsy migrationName \<and> migrationPos = - 1
         then process_exit 1
                (console_error (''Could not find migration: '' @ the migrationName) s)
         else
           (let queue = run_slice direction (migrations s) (pos s) migrationPos;
                s1 = s\<lparr>pos := moved_pos direction (pos s) (length queue)\<rparr>
            in next_step env direction None (fst (shift queue)) (snd (shift queue)) s1))"

text \<open>\<open>Set.prototype.migrate\<close>, \<open>up\<close> and \<open>down\<close>.\<close>

definition migrate :: "'w env \<Rightarrow> direction \<Rightarrow> string option \<Rightarrow> 'w sys \<Rightarrow> 'w sys" where
  "migrate env direction migrationName s =
     load env
       (\<lambda>r s'. case r of
            Inl err \<Rightarrow>
              (if err_code err \<noteq> Some ''ENOENT'' then emit (EvError err) s'
               else underscore_migrate env direction migrationName s')
          | Inr obj \<Rightarrow> underscore_migrate env direction migrationName (s'\<lparr>pos := obj_pos obj\<rparr>))
       s"

definition down :: "'w env \<Rightarrow> string option \<Rightarrow> 'w sys \<Rightarrow> 'w sys" where
  "down env migrationName s = migrate env Down migrationName s"

definition up :: "'w env \<Rightarrow> string option \<Rightarrow> 'w sys \<Rightarrow> 'w sys" where
  "up env migrationName s = migrate env Up migrationName s"

subsection \<open>Notions used in the statements\<close>

text \<open>The effect of one call \<open>migration[direction](...)\<close> in \<open>next\<close>, up to its callback.\<close>

definition step_state :: "direction \<Rightarrow> 'w migration \<Rightarrow> 'w sys \<Rightarrow> 'w sys" where
  "step_state direction m s =
     (let s1 = emit (EvMigration m direction) s;
          r = step_of direction m (world s1)
      in s1\<lparr>world := snd r, invoked := invoked s1 @ [(m, direction, pos s1)]\<rparr>)"

text \<open>The state after the migrations of a list have run, one after the other.\<close>

fun run_steps :: "direction \<Rightarrow> 'w migration list \<Rightarrow> 'w sys \<Rightarrow> 'w sys" where
  "run_steps direction [] s = s"
| "run_steps direction (m # q) s = run_steps direction q (step_state direction m s)"

text \<open>
  The first migration of a slice that reports an error when the slice is run from world
  \<open>w\<close>: its index in the slice and the error. \<open>None\<close>: every migration reports success.
\<close>

fun first_failure :: "direction \<Rightarrow> 'w migration list \<Rightarrow> 'w \<Rightarrow> (nat \<times> js_error) option" where
  "first_failure direction [] w = None"
| "first_failure direction (m # q) w =
     (case fst (step_of direction m w) of
        Some e \<Rightarrow> Some (0, e)
      | None \<Rightarrow> map_option (\<lambda>(k, e). (Suc k, e))
                 (first_failure direction q (snd (step_of direction m w))))"

text \<open>The call \<open>next(null, migrations.shift())\<close> of line 263 on the slice \<open>queue\<close>.\<close>

definition drain :: "'w env \<Rightarrow> direction \<Rightarrow> 'w migration list \<Rightarrow> 'w sys \<Rightarrow> 'w sys" where
  "drain env direction queue s =
     next_step env direction None (fst (shift queue)) (snd (shift queue)) s"

text \<open>
  \<open>load\<close> succeeds and hands position \<open>p\<close> to its callback: the connection and the
  \<open>SELECT\<close> succeed and the stored titles (or the default \<open>'[]'\<close>) parse.
\<close>

definition load_delivers :: "'w env \<Rightarrow> 'w sys \<Rightarrow> int \<Rightarrow> bool" where
  "load_delivers env s p =
     (connect_err env = None \<and> select_err env = None \<and>
      (case store s of
         None \<Rightarrow> (case json_parse env ''[]'' of Inl msg \<Rightarrow> False | Inr j \<Rightarrow> p = 0)
       | Some r \<Rightarrow> (case json_parse env (row_migrations r) of
                     Inl msg \<Rightarrow> False | Inr j \<Rightarrow> p = row_pos r)))"

text \<open>The state in which \<open>migrate\<close> calls \<open>_migrate\<close> after such a load.\<close>

definition started :: "'w sys \<Rightarrow> int \<Rightarrow> 'w sys" where
  "started s p = (emit EvLoad s)\<lparr>db := True, pos := p\<rparr>"

subsection \<open>A sample set\<close>

text \<open>
  Three migrations that append a line to a log, one whose operations report an error,
  an environment in which the database answers, and a set that has not run yet.
\<close>

definition logging :: "string \<Rightarrow> string list \<Rightarrow> js_error option \<times> string list" where
  "logging line w = (None, w @ [line])"

definition failing :: "string \<Rightarrow> string list \<Rightarrow> js_error option \<times> string list" where
  "failing msg w = (Some \<lparr>err_code = None, err_message = msg\<rparr>, w)"

definition m001 :: "string list migration" where
  "m001 = \<lparr>title = ''001'', up_step = logging ''up 001'', down_step = logging ''down 001''\<rparr>"

definition m002 :: "string list migration" where
  "m002 = \<lparr>title = ''002'', up_step = logging ''up 002'', down_step = logging ''down 002''\<rparr>"

definition m003 :: "string list migration" where
  "m003 = \<lparr>title = ''003'', up_step = logging ''up 003'', down_step = logging ''down 003''\<rparr>"

definition m_bad :: "string list migration" where
  "m_bad = \<lparr>title = ''bad'', up_step = failing ''boom'', down_step = failing ''boom''\<rparr>"

definition m_blank :: "string list migration" where
  "m_blank = \<lparr>title = '''', up_step = logging ''up blank'', down_step = logging ''down blank''\<rparr>"

definition sample_env :: "string list env" where
  "sample_env =
     \<lparr>connect_err = None, select_err = None, insert_err = None,
      json_parse = (\<lambda>t. if t = ''[]'' then Inr (JArr []) else Inl ''Unexpected token''),
      json_stringify = (\<lambda>ms. ''['' @ concat (map title ms) @ '']'')\<rparr>"

definition sample_sys :: "string list migration list \<Rightarrow> db_row option \<Rightarrow> string list sys" where
  "sample_sys ms row =
     \<lparr>migrations = ms, path = ''.migrate'', pos = 0, db = False, store = row,
      world = [], events = [], invoked = [], console = [], exit_code = None\<rparr>"

section \<open>Properties\<close>

subsection \<open>The drain\<close>

lemma drain_Nil: "drain env d [] s = save env (emit EvComplete s)"
  by (simp add: drain_def)

lemma drain_Cons:
  "drain env d (m # q) s =
     (case fst (step_of d m (world s)) of
        Some e \<Rightarrow> emit (EvError e) (step_state d m s)
      | None \<Rightarrow> drain env d q (step_state d m s))"
  by (cases q) (simp_all add: drain_def step_state_def Let_def emit_def split: option.splits)

lemma world_step_state: "world (step_state d m s) = snd (step_of d m (world s))"
  by (simp add: step_state_def Let_def emit_def)

lemma drain_ok:
  "first_failure d q (world s) = None \<Longrightarrow>
     drain env d q s = save env (emit EvComplete (run_steps d q s))"
proof (induction q arbitrary: s)
  case Nil
  show ?case by (simp add: drain_Nil)
next
  case (Cons m q)
  from Cons.prems have ok: "fst (step_of d m (world s)) = None"
    and rest: "first_failure d q (world (step_state d m s)) = None"
    by (auto simp: world_step_state split: option.splits)
  show ?case by (simp add: drain_Cons ok Cons.IH [OF rest])
qed

lemma drain_fails:
  "first_failure d q (world s) = Some (k, e) \<Longrightarrow>
     drain env d q s = emit (EvError e) (run_steps d (take (Suc k) q) s)"
proof (induction q arbitrary: s k)
  case Nil
  then show ?case by simp
next
  case (Cons m q)
  show ?case
  proof (cases "fst (step_of d m (world s))")
    case (Some e')
    with Cons.prems have "k = 0" "e' = e" by auto
    with Some show ?thesis by (simp add: drain_Cons)
  next
    case None
    with Cons.prems obtain k' where k: "k = Suc k'"
      and rest: "first_failure d q (world (step_state d m s)) = Some (k', e)"
      by (auto simp: world_step_state)
    show ?thesis by (simp add: drain_Cons None k Cons.IH [OF rest])
  qed
qed

lemma run_steps_fields:
  "migrations (run_steps d q s) = migrations s"
  "path (run_steps d q s) = path s"
  "pos (run_steps d q s) = pos s"
  "db (run_steps d q s) = db s"
  "store (run_steps d q s) = store s"
  "console (run_steps d q s) = console s"
  "exit_code (run_steps d q s) = exit_code s"
  by (induction q arbitrary: s; simp add: step_state_def Let_def emit_def)+

lemma events_run_steps:
  "events (run_steps d q s) = events s @ map (\<lambda>m. EvMigration m d) q"
  by (induction q arbitrary: s) (simp_all add: step_state_def Let_def emit_def)

lemma invoked_run_steps:
  "invoked (run_steps d q s) = invoked s @ map (\<lambda>m. (m, d, pos s)) q"
  by (induction q arbitrary: s) (simp_all add: step_state_def Let_def emit_def)

lemma save_fields:
  "migrations (save env s) = migrations s"
  "path (save env s) = path s"
  "pos (save env s) = pos s"
  "world (save env s) = world s"
  "invoked (save env s) = invoked s"
  "console (save env s) = console s"
  "exit_code (save env s) = exit_code s"
  by (simp_all add: save_def connectDb_def saveToDatabase_def disconnectDb_def emit_def Let_def
        split: option.splits)

lemma emit_fields:
  "migrations (emit ev s) = migrations s"
  "path (emit ev s) = path s"
  "pos (emit ev s) = pos s"
  "db (emit ev s) = db s"
  "store (emit ev s) = store s"
  "world (emit ev s) = world s"
  "invoked (emit ev s) = invoked s"
  "console (emit ev s) = console s"
  "exit_code (emit ev s) = exit_code s"
  "events (emit ev s) = events s @ [ev]"
  by (simp_all add: emit_def)

subsection \<open>Slices and lookup\<close>

lemma take_drop_nth_upt:
  "b \<le> length xs \<Longrightarrow> take (b - a) (drop a xs) = map ((!) xs) [a..<b]"
  by (rule nth_equalityI) auto

lemma js_slice_nat:
  assumes "0 \<le> a" "0 \<le> b"
  shows "js_slice xs a b = map ((!) xs) [min (nat a) (length xs)..<min (nat b) (length xs)]"
proof -
  let ?n = "length xs"
  have k: "nat (min a (int ?n)) = min (nat a) ?n" using assms by linarith
  have c: "nat (max (min b (int ?n) - min a (int ?n)) 0) = min (nat b) ?n - min (nat a) ?n"
    using assms by linarith
  have "js_slice xs a b = take (min (nat b) ?n - min (nat a) ?n) (drop (min (nat a) ?n) xs)"
    using assms by (simp add: js_slice_def Let_def k c)
  also have "\<dots> = map ((!) xs) [min (nat a) ?n..<min (nat b) ?n]"
    by (rule take_drop_nth_upt) simp
  finally show ?thesis .
qed

lemma position_loop_range:
  "position_loop ms f i = r \<Longrightarrow> 0 \<le> i \<Longrightarrow> r = - 1 \<or> (i \<le> r \<and> r < i + int (length ms))"
proof (induction ms arbitrary: i)
  case Nil
  then show ?case by simp
next
  case (Cons m ms)
  show ?case
  proof (cases "title m = f")
    case True
    with Cons.prems show ?thesis by simp
  next
    case False
    with Cons.prems have "position_loop ms f (i + 1) = r" by simp
    from Cons.IH [OF this] Cons.prems(2) show ?thesis by auto
  qed
qed

lemma position_loop_absent:
  "0 \<le> i \<Longrightarrow> (position_loop ms f i = - 1) = (f \<notin> title ` set ms)"
proof (induction ms arbitrary: i)
  case Nil
  show ?case by simp
next
  case (Cons m ms)
  then show ?case by auto
qed

lemma positionOfMigration_absent:
  "(positionOfMigration ms f = - 1) = (f \<notin> title ` set ms)"
  by (simp add: positionOfMigration_def position_loop_absent)

lemma positionOfMigration_range:
  "positionOfMigration ms f = int i \<Longrightarrow> i < length ms"
  using position_loop_range [of ms f 0 "int i"] by (simp add: positionOfMigration_def)

lemma position_loop_title:
  "position_loop ms f i = r \<Longrightarrow> r \<noteq> - 1 \<Longrightarrow> 0 \<le> i \<Longrightarrow> title (ms ! nat (r - i)) = f"
proof (induction ms arbitrary: i)
  case Nil
  then show ?case by simp
next
  case (Cons m ms)
  show ?case
  proof (cases "title m = f")
    case True
    with Cons.prems show ?thesis by simp
  next
    case False
    with Cons.prems have rec: "position_loop ms f (i + 1) = r" by simp
    from position_loop_range [OF rec] Cons.prems have "i + 1 \<le> r" by simp
    then have "nat (r - i) = Suc (nat (r - (i + 1)))" by simp
    with Cons.IH [OF rec Cons.prems(2)] Cons.prems(3) show ?thesis by simp
  qed
qed

subsection \<open>Load and run\<close>

lemma migrate_loaded:
  "load_delivers env s p \<Longrightarrow>
     migrate env d t s = underscore_migrate env d t (started s p)"
  by (auto simp: load_delivers_def migrate_def load_def connectDb_def loadFromDatabase_def
        started_def emit_def Let_def split: option.splits sum.splits)

lemma started_fields:
  "migrations (started s p) = migrations s"
  "path (started s p) = path s"
  "pos (started s p) = p"
  "db (started s p) = True"
  "store (started s p) = store s"
  "world (started s p) = world s"
  "invoked (started s p) = invoked s"
  "console (started s p) = console s"
  "exit_code (started s p) = exit_code s"
  "events (started s p) = events s @ [EvLoad]"
  by (simp_all add: started_def emit_def)

lemma underscore_migrate_run:
  "falsy t \<or> target_position d (migrations s) t \<noteq> - 1 \<Longrightarrow>
     underscore_migrate env d t s =
       drain env d (run_slice d (migrations s) (pos s) (target_position d (migrations s) t))
         (s\<lparr>pos := moved_pos d (pos s)
              (length (run_slice d (migrations s) (pos s)
                 (target_position d (migrations s) t)))\<rparr>)"
  by (auto simp: underscore_migrate_def drain_def Let_def)

lemma underscore_migrate_unresolved:
  "\<not> falsy t \<Longrightarrow> target_position d (migrations s) t = - 1 \<Longrightarrow>
     underscore_migrate env d t s =
       process_exit 1 (console_error (''Could not find migration: '' @ the t) s)"
  by (simp add: underscore_migrate_def Let_def)

lemma drain_pos: "pos (drain env d q s) = pos s"
proof (cases "first_failure d q (world s)")
  case None
  then show ?thesis by (simp add: drain_ok save_fields emit_fields run_steps_fields)
next
  case (Some ke)
  then obtain k e where "first_failure d q (world s) = Some (k, e)" by (cases ke) auto
  then show ?thesis by (simp add: drain_fails emit_fields run_steps_fields)
qed

lemma drain_migrations: "migrations (drain env d q s) = migrations s"
proof (cases "first_failure d q (world s)")
  case None
  then show ?thesis by (simp add: drain_ok save_fields emit_fields run_steps_fields)
next
  case (Some ke)
  then obtain k e where "first_failure d q (world s) = Some (k, e)" by (cases ke) auto
  then show ?thesis by (simp add: drain_fails emit_fields run_steps_fields)
qed

lemma drain_ok_invoked:
  "first_failure d q (world s) = None \<Longrightarrow>
     invoked (drain env d q s) = invoked s @ map (\<lambda>m. (m, d, pos s)) q"
  by (simp add: drain_ok save_fields emit_fields invoked_run_steps)

lemma run_slice_up_rest:
  assumes "0 \<le> p" "p \<le> int (length ms)"
  shows "run_slice Up ms p (int (length ms)) = map ((!) ms) [nat p..<length ms]"
  using assms by (simp add: js_slice_nat min_def) 

lemma run_slice_down_all:
  assumes "0 \<le> p" "p \<le> int (length ms)"
  shows "run_slice Down ms p 0 = map ((!) ms) (rev [0..<nat p])"
  using assms by (simp add: js_slice_nat min_def rev_map)

lemma run_slice_up_to:
  assumes "0 \<le> p" "i < length ms"
  shows "run_slice Up ms p (int i) = map ((!) ms) [nat p..<Suc i]"
proof -
  have "nat (int i + 1) = Suc i" by simp
  moreover have "[min (nat p) (length ms)..<Suc i] = [nat p..<Suc i]"
    using assms by (cases "nat p \<le> length ms") (simp_all add: min_def)
  ultimately show ?thesis using assms by (simp add: js_slice_nat min_def Suc_le_eq)
qed

lemma run_slice_down_to:
  assumes "0 \<le> p" "p \<le> int (length ms)" "int i \<le> p"
  shows "run_slice Down ms p (int i) = map ((!) ms) (rev [i..<nat p])"
proof -
  have "min i (length ms) = i" "min (nat p) (length ms) = nat p" using assms by auto
  then show ?thesis using assms by (simp add: js_slice_nat rev_map)
qed

lemmas sample_defs = sample_env_def sample_sys_def m001_def m002_def m003_def m_bad_def m_blank_def
  logging_def failing_def

lemma migrate_run:
  assumes "load_delivers env s p"
    and "falsy t \<or> target_position d (migrations s) t \<noteq> - 1"
    and "run_slice d (migrations s) p (target_position d (migrations s) t) = q"
    and "moved_pos d p (length q) = np"
  shows "migrate env d t s = drain env d q (started s p\<lparr>pos := np\<rparr>)"
proof -
  have "migrate env d t s = underscore_migrate env d t (started s p)"
    using assms(1) by (rule migrate_loaded)
  also have "\<dots> = drain env d
       (run_slice d (migrations (started s p)) (pos (started s p))
          (target_position d (migrations (started s p)) t))
       (started s p\<lparr>pos := moved_pos d (pos (started s p))
          (length (run_slice d (migrations (started s p)) (pos (started s p))
             (target_position d (migrations (started s p)) t)))\<rparr>)"
    using assms(2) by (intro underscore_migrate_run) (simp add: started_fields)
  also have "\<dots> = drain env d q (started s p\<lparr>pos := np\<rparr>)"
    unfolding started_fields assms(3) assms(4) ..
  finally show ?thesis .
qed

lemma drain_started_pos: "pos (drain env d q (started s p\<lparr>pos := np\<rparr>)) = np"
  by (simp add: drain_pos)

lemma drain_started_migrations:
  "migrations (drain env d q (started s p\<lparr>pos := np\<rparr>)) = migrations s"
  by (simp add: drain_migrations started_fields)

lemma drain_started_ok_invoked:
  "first_failure d q (world s) = None \<Longrightarrow>
     invoked (drain env d q (started s p\<lparr>pos := np\<rparr>)) = invoked s @ map (\<lambda>m. (m, d, np)) q"
  by (simp add: drain_ok_invoked started_fields)

lemma drain_started_fails:
  assumes "first_failure d q (world s) = Some (k, e)"
  shows "invoked (drain env d q (started s p\<lparr>pos := np\<rparr>)) =
           invoked s @ map (\<lambda>m. (m, d, np)) (take (Suc k) q)"
    and "events (drain env d q (started s p\<lparr>pos := np\<rparr>)) =
           events s @ [EvLoad] @ map (\<lambda>m. EvMigration m d) (take (Suc k) q) @ [EvError e]"
    and "store (drain env d q (started s p\<lparr>pos := np\<rparr>)) = store s"
proof -
  have ff: "first_failure d q (world (started s p\<lparr>pos := np\<rparr>)) = Some (k, e)"
    using assms by (simp add: started_fields)
  show "invoked (drain env d q (started s p\<lparr>pos := np\<rparr>)) =
           invoked s @ map (\<lambda>m. (m, d, np)) (take (Suc k) q)"
    unfolding drain_fails [OF ff]
    by (simp add: emit_fields invoked_run_steps started_fields del: take_Suc_Cons)
  show "events (drain env d q (started s p\<lparr>pos := np\<rparr>)) =
           events s @ [EvLoad] @ map (\<lambda>m. EvMigration m d) (take (Suc k) q) @ [EvError e]"
    unfolding drain_fails [OF ff]
    by (simp add: emit_fields events_run_steps started_fields del: take_Suc_Cons)
  show "store (drain env d q (started s p\<lparr>pos := np\<rparr>)) = store s"
    unfolding drain_fails [OF ff]
    by (simp add: emit_fields run_steps_fields started_fields)
qed

lemma world_run_steps:
  "world (run_steps d q s) = foldl (\<lambda>w m. snd (step_of d m w)) (world s) q"
  by (induction q arbitrary: s) (simp_all add: world_step_state)

lemma drain_started_ok_world:
  "first_failure d q (world s) = None \<Longrightarrow>
     world (drain env d q (started s p\<lparr>pos := np\<rparr>)) =
       foldl (\<lambda>w m. snd (step_of d m w)) (world s) q"
  by (simp add: drain_ok save_fields emit_fields world_run_steps started_fields)

subsection \<open>Claims\<close>

text \<open>
  C1. When the load delivers position \<open>p\<close> with \<open>0 \<le> p \<le> N\<close> and no migration of the
  slice reports an error, \<open>up()\<close> without a target calls exactly the migrations at
  indices \<open>p\<close> to \<open>N - 1\<close>, in registration order: \<open>N - p\<close> calls. The world is
  the one their \<open>up\<close> operations produce, applied in that order. The position is \<open>N\<close>
  afterwards (and already at each call).
\<close>

theorem up_runs_rest:
  assumes "load_delivers env s p" and "0 \<le> p" and "p \<le> int (length (migrations s))"
    and "first_failure Up (map ((!) (migrations s)) [nat p..<length (migrations s)]) (world s) = None"
  shows "invoked (up env None s) =
           invoked s @ map (\<lambda>i. (migrations s ! i, Up, int (length (migrations s))))
                         [nat p..<length (migrations s)]
         \<and> length (invoked (up env None s)) = length (invoked s) + (length (migrations s) - nat p)
         \<and> pos (up env None s) = int (length (migrations s))
         \<and> world (up env None s) =
             foldl (\<lambda>w i. snd (up_step (migrations s ! i) w)) (world s)
               [nat p..<length (migrations s)]"
proof -
  let ?ms = "migrations s"
  let ?q = "map ((!) ?ms) [nat p..<length ?ms]"
  have tp: "target_position Up ?ms None = int (length ?ms)"
    by (simp add: target_position_def)
  have q: "run_slice Up ?ms p (target_position Up ?ms None) = ?q"
    unfolding tp using assms(2,3) by (rule run_slice_up_rest)
  have np: "moved_pos Up p (length ?q) = int (length ?ms)"
    using assms(2,3) by simp
  have run: "up env None s = drain env Up ?q (started s p\<lparr>pos := int (length ?ms)\<rparr>)"
    unfolding up_def using assms(1) _ q np by (rule migrate_run) simp
  have inv: "invoked (up env None s) = invoked s @ map (\<lambda>m. (m, Up, int (length ?ms))) ?q"
    unfolding run using assms(4) by (rule drain_started_ok_invoked)
  have ps: "pos (up env None s) = int (length ?ms)"
    unfolding run by (rule drain_started_pos)
  have "world (up env None s) = foldl (\<lambda>w m. snd (step_of Up m w)) (world s) ?q"
    unfolding run using assms(4) by (rule drain_started_ok_world)
  then have w: "world (up env None s) =
      foldl (\<lambda>w i. snd (up_step (?ms ! i) w)) (world s) [nat p..<length ?ms]"
    by (simp add: foldl_map)
  from inv ps w show ?thesis by (simp add: comp_def)
qed

theorem up_runs_rest_witness:
  "load_delivers sample_env (sample_sys [m001, m002, m003] (Some \<lparr>row_migrations = ''[]'', row_pos = 1\<rparr>)) 1
   \<and> first_failure Up [m002, m003] [] = None
   \<and> invoked (up sample_env None (sample_sys [m001, m002, m003] (Some \<lparr>row_migrations = ''[]'', row_pos = 1\<rparr>)))
       = [(m002, Up, 3), (m003, Up, 3)]
   \<and> pos (up sample_env None (sample_sys [m001, m002, m003] (Some \<lparr>row_migrations = ''[]'', row_pos = 1\<rparr>))) = 3
   \<and> world (up sample_env None (sample_sys [m001, m002, m003] (Some \<lparr>row_migrations = ''[]'', row_pos = 1\<rparr>)))
       = [''up 002'', ''up 003'']"
proof -
  let ?s = "sample_sys [m001, m002, m003] (Some \<lparr>row_migrations = ''[]'', row_pos = 1\<rparr>)"
  have ld: "load_delivers sample_env ?s 1"
    by (simp add: load_delivers_def sample_env_def sample_sys_def)
  have up: "[nat 1..<length (migrations ?s)] = [1, 2]"
    by (simp add: sample_sys_def upt_rec)
  have ff: "first_failure Up (map ((!) (migrations ?s)) [nat 1..<length (migrations ?s)]) (world ?s) = None"
    unfolding up by (simp add: sample_defs)
  have ff': "first_failure Up [m002, m003] [] = None"
    by (simp add: sample_defs)
  have ws: "foldl (\<lambda>w i. snd (up_step (migrations ?s ! i) w)) (world ?s) [1, 2]
      = [''up 002'', ''up 003'']"
    by (simp add: sample_defs)
  from up_runs_rest [OF ld _ _ ff] ld ff' show ?thesis
    unfolding up ws by (simp add: sample_sys_def)
qed

text \<open>
  C2. When the load delivers position \<open>p\<close> with \<open>0 \<le> p \<le> N\<close> and no migration of the
  slice reports an error, \<open>down()\<close> without a target calls exactly the migrations at
  indices \<open>p - 1\<close> down to \<open>0\<close>, in that order: \<open>p\<close> calls. The world is the one
  their \<open>down\<close> operations produce, applied in that order. The position is \<open>0\<close>
  afterwards.
\<close>

theorem down_runs_all:
  assumes "load_delivers env s p" and "0 \<le> p" and "p \<le> int (length (migrations s))"
    and "first_failure Down (map ((!) (migrations s)) (rev [0..<nat p])) (world s) = None"
  shows "invoked (down env None s) =
           invoked s @ map (\<lambda>i. (migrations s ! i, Down, 0)) (rev [0..<nat p])
         \<and> length (invoked (down env None s)) = length (invoked s) + nat p
         \<and> pos (down env None s) = 0
         \<and> world (down env None s) =
             foldl (\<lambda>w i. snd (down_step (migrations s ! i) w)) (world s) (rev [0..<nat p])"
proof -
  let ?ms = "migrations s"
  let ?q = "map ((!) ?ms) (rev [0..<nat p])"
  have tp: "target_position Down ?ms None = 0"
    by (simp add: target_position_def)
  have q: "run_slice Down ?ms p (target_position Down ?ms None) = ?q"
    unfolding tp using assms(2,3) by (rule run_slice_down_all)
  have np: "moved_pos Down p (length ?q) = 0"
    using assms(2) by simp
  have run: "down env None s = drain env Down ?q (started s p\<lparr>pos := 0\<rparr>)"
    unfolding down_def using assms(1) _ q np by (rule migrate_run) simp
  have inv: "invoked (down env None s) = invoked s @ map (\<lambda>m. (m, Down, 0)) ?q"
    unfolding run using assms(4) by (rule drain_started_ok_invoked)
  have ps: "pos (down env None s) = 0"
    unfolding run by (rule drain_started_pos)
  have "world (down env None s) = foldl (\<lambda>w m. snd (step_of Down m w)) (world s) ?q"
    unfolding run using assms(4) by (rule drain_started_ok_world)
  then have w: "world (down env None s) =
      foldl (\<lambda>w i. snd (down_step (?ms ! i) w)) (world s) (rev [0..<nat p])"
    by (simp add: foldl_map)
  from inv ps w show ?thesis by (simp add: comp_def)
qed

theorem down_runs_all_witness:
  "load_delivers sample_env (sample_sys [m001, m002, m003] (Some \<lparr>row_migrations = ''[]'', row_pos = 2\<rparr>)) 2
   \<and> first_failure Down [m002, m001] [] = None
   \<and> invoked (down sample_env None (sample_sys [m001, m002, m003] (Some \<lparr>row_migrations = ''[]'', row_pos = 2\<rparr>)))
       = [(m002, Down, 0), (m001, Down, 0)]
   \<and> pos (down sample_env None (sample_sys [m001, m002, m003] (Some \<lparr>row_migrations = ''[]'', row_pos = 2\<rparr>))) = 0
   \<and> world (down sample_env None (sample_sys [m001, m002, m003] (Some \<lparr>row_migrations = ''[]'', row_pos = 2\<rparr>)))
       = [''down 002'', ''down 001'']"
proof -
  let ?s = "sample_sys [m001, m002, m003] (Some \<lparr>row_migrations = ''[]'', row_pos = 2\<rparr>)"
  have ld: "load_delivers sample_env ?s 2"
    by (simp add: load_delivers_def sample_env_def sample_sys_def)
  have idx: "rev [0..<nat 2] = [1, 0]"
    by (simp add: upt_rec numeral_2_eq_2)
  have ff: "first_failure Down (map ((!) (migrations ?s)) (rev [0..<nat 2])) (world ?s) = None"
    unfolding idx by (simp add: sample_defs)
  have ff': "first_failure Down [m002, m001] [] = None"
    by (simp add: sample_defs)
  have ws: "foldl (\<lambda>w i. snd (down_step (migrations ?s ! i) w)) (world ?s) [1, 0]
      = [''down 002'', ''down 001'']"
    by (simp add: sample_defs)
  from down_runs_all [OF ld _ _ ff] ld ff' show ?thesis
    unfolding idx ws by (simp add: sample_sys_def)
qed

text \<open>
  C3, as stated, fails in two places. A target that is the empty string is taken for a
  missing one at line 225, also when a migration of that title is registered: the lookup
  would resolve it to index \<open>0\<close> here, and \<open>up("")\<close> runs all three migrations and
  leaves position \<open>3\<close>, not \<open>1\<close>. And a stored position \<open>- 1\<close> makes \<open>slice\<close>
  count from the end: \<open>up("001")\<close> then runs nothing and leaves the position at \<open>- 1\<close>.
\<close>

theorem up_to_target_counterexample:
  "positionOfMigration [m_blank, m002, m003] '''' = 0
   \<and> invoked (up sample_env (Some '''') (sample_sys [m_blank, m002, m003] None))
       = [(m_blank, Up, 3), (m002, Up, 3), (m003, Up, 3)]
   \<and> pos (up sample_env (Some '''') (sample_sys [m_blank, m002, m003] None)) = 3
   \<and> positionOfMigration [m001, m002, m003] ''001'' = 0
   \<and> invoked (up sample_env (Some ''001'')
        (sample_sys [m001, m002, m003] (Some \<lparr>row_migrations = ''[]'', row_pos = - 1\<rparr>))) = []
   \<and> pos (up sample_env (Some ''001'')
        (sample_sys [m001, m002, m003] (Some \<lparr>row_migrations = ''[]'', row_pos = - 1\<rparr>))) = - 1"
  by (simp add: up_def migrate_def load_def connectDb_def loadFromDatabase_def emit_def
      underscore_migrate_def target_position_def positionOfMigration_def js_slice_def save_def
      saveToDatabase_def disconnectDb_def sample_defs Let_def)

text \<open>
  C3, amended. When the load delivers position \<open>p \<ge> 0\<close>, the target is a non-empty
  title that the lookup resolves to index \<open>i \<ge> p\<close>, and no migration of the slice
  reports an error, \<open>up(target)\<close> calls exactly the migrations at indices \<open>p\<close> to
  \<open>i\<close>, in registration order. The world is the one their \<open>up\<close> operations produce,
  applied in that order, and the position is \<open>i + 1\<close> afterwards.
\<close>

theorem up_to_target:
  assumes "load_delivers env s p" and "0 \<le> p" and "t \<noteq> []"
    and "positionOfMigration (migrations s) t = int i" and "p \<le> int i"
    and "first_failure Up (map ((!) (migrations s)) [nat p..<Suc i]) (world s) = None"
  shows "invoked (up env (Some t) s) =
           invoked s @ map (\<lambda>j. (migrations s ! j, Up, int i + 1)) [nat p..<Suc i]
         \<and> pos (up env (Some t) s) = int i + 1
         \<and> world (up env (Some t) s) =
             foldl (\<lambda>w j. snd (up_step (migrations s ! j) w)) (world s) [nat p..<Suc i]"
proof -
  let ?ms = "migrations s"
  let ?q = "map ((!) ?ms) [nat p..<Suc i]"
  have tp: "target_position Up ?ms (Some t) = int i"
    using assms(3,4) by (simp add: target_position_def)
  have i: "i < length ?ms"
    using assms(4) by (rule positionOfMigration_range)
  have q: "run_slice Up ?ms p (target_position Up ?ms (Some t)) = ?q"
    unfolding tp using assms(2) i by (rule run_slice_up_to)
  have np: "moved_pos Up p (length ?q) = int i + 1"
    using assms(2,5) by simp
  have run: "up env (Some t) s = drain env Up ?q (started s p\<lparr>pos := int i + 1\<rparr>)"
    unfolding up_def using assms(1) _ q np by (rule migrate_run) (simp add: tp)
  have inv: "invoked (up env (Some t) s) = invoked s @ map (\<lambda>m. (m, Up, int i + 1)) ?q"
    unfolding run using assms(6) by (rule drain_started_ok_invoked)
  have ps: "pos (up env (Some t) s) = int i + 1"
    unfolding run by (rule drain_started_pos)
  have "world (up env (Some t) s) = foldl (\<lambda>w m. snd (step_of Up m w)) (world s) ?q"
    unfolding run using assms(6) by (rule drain_started_ok_world)
  then have w: "world (up env (Some t) s) =
      foldl (\<lambda>w j. snd (up_step (?ms ! j) w)) (world s) [nat p..<Suc i]"
    by (simp add: foldl_map)
  from inv ps w show ?thesis by (simp add: comp_def)
qed

theorem up_to_target_witness:
  "load_delivers sample_env (sample_sys [m001, m002, m003] None) 0
   \<and> positionOfMigration [m001, m002, m003] ''002'' = 1
   \<and> first_failure Up [m001, m002] [] = None
   \<and> invoked (up sample_env (Some ''002'') (sample_sys [m001, m002, m003] None))
       = [(m001, Up, 2), (m002, Up, 2)]
   \<and> pos (up sample_env (Some ''002'') (sample_sys [m001, m002, m003] None)) = 2
   \<and> world (up sample_env (Some ''002'') (sample_sys [m001, m002, m003] None))
       = [''up 001'', ''up 002'']"
proof -
  let ?s = "sample_sys [m001, m002, m003] None"
  have ld: "load_delivers sample_env ?s 0"
    by (simp add: load_delivers_def sample_env_def sample_sys_def)
  have look: "positionOfMigration (migrations ?s) ''002'' = int 1"
    by (simp add: positionOfMigration_def sample_defs)
  have look': "positionOfMigration [m001, m002, m003] ''002'' = 1"
    by (simp add: positionOfMigration_def sample_defs)
  have idx: "[nat 0..<Suc 1] = [0, 1]"
    by (simp add: upt_rec)
  have ff: "first_failure Up (map ((!) (migrations ?s)) [nat 0..<Suc 1]) (world ?s) = None"
    unfolding idx by (simp add: sample_defs)
  have ff': "first_failure Up [m001, m002] [] = None"
    by (simp add: sample_defs)
  have ws: "foldl (\<lambda>w j. snd (up_step (migrations ?s ! j) w)) (world ?s) [0, 1]
      = [''up 001'', ''up 002'']"
    by (simp add: sample_defs)
  from up_to_target [OF ld _ _ look _ ff] ld look' ff' show ?thesis
    unfolding idx ws by (simp add: sample_sys_def)
qed

text \<open>
  C4, as stated, fails in two places. A target that is the empty string is taken for a
  missing one at line 225, also when a migration of that title is registered: the lookup
  would resolve it to index \<open>1\<close> here, and \<open>down("")\<close> undoes all three migrations
  and leaves position \<open>0\<close>, not \<open>1\<close>. And a stored position \<open>5\<close> beyond the three
  registered migrations makes \<open>slice\<close> stop at the end of the array: \<open>down("002")\<close>
  then undoes two migrations and leaves position \<open>3\<close>, not \<open>1\<close>.
\<close>

theorem down_to_target_counterexample:
  "positionOfMigration [m001, m_blank, m003] '''' = 1
   \<and> invoked (down sample_env (Some '''')
        (sample_sys [m001, m_blank, m003] (Some \<lparr>row_migrations = ''[]'', row_pos = 3\<rparr>)))
       = [(m003, Down, 0), (m_blank, Down, 0), (m001, Down, 0)]
   \<and> pos (down sample_env (Some '''')
        (sample_sys [m001, m_blank, m003] (Some \<lparr>row_migrations = ''[]'', row_pos = 3\<rparr>))) = 0
   \<and> positionOfMigration [m001, m002, m003] ''002'' = 1
   \<and> invoked (down sample_env (Some ''002'')
        (sample_sys [m001, m002, m003] (Some \<lparr>row_migrations = ''[]'', row_pos = 5\<rparr>)))
       = [(m003, Down, 3), (m002, Down, 3)]
   \<and> pos (down sample_env (Some ''002'')
        (sample_sys [m001, m002, m003] (Some \<lparr>row_migrations = ''[]'', row_pos = 5\<rparr>))) = 3"
  by (simp add: down_def migrate_def load_def connectDb_def loadFromDatabase_def emit_def
      underscore_migrate_def target_position_def positionOfMigration_def js_slice_def save_def
      saveToDatabase_def disconnectDb_def sample_defs Let_def)

text \<open>
  C4, amended. When the load delivers position \<open>p \<le> N\<close>, the target is a non-empty
  title that the lookup resolves to index \<open>i \<le> p\<close>, and no migration of the slice
  reports an error, \<open>down(target)\<close> calls exactly the migrations at indices \<open>p - 1\<close>
  down to \<open>i\<close>, in that order. The world is the one their \<open>down\<close> operations produce,
  applied in that order, and the position is \<open>i\<close> afterwards.
\<close>

theorem down_to_target:
  assumes "load_delivers env s p" and "p \<le> int (length (migrations s))" and "t \<noteq> []"
    and "positionOfMigration (migrations s) t = int i" and "int i \<le> p"
    and "first_failure Down (map ((!) (migrations s)) (rev [i..<nat p])) (world s) = None"
  shows "invoked (down env (Some t) s) =
           invoked s @ map (\<lambda>j. (migrations s ! j, Down, int i)) (rev [i..<nat p])
         \<and> pos (down env (Some t) s) = int i
         \<and> world (down env (Some t) s) =
             foldl (\<lambda>w j. snd (down_step (migrations s ! j) w)) (world s) (rev [i..<nat p])"
proof -
  let ?ms = "migrations s"
  let ?q = "map ((!) ?ms) (rev [i..<nat p])"
  have p0: "0 \<le> p" using assms(5) by simp
  have tp: "target_position Down ?ms (Some t) = int i"
    using assms(3,4) by (simp add: target_position_def)
  have q: "run_slice Down ?ms p (target_position Down ?ms (Some t)) = ?q"
    unfolding tp using p0 assms(2,5) by (rule run_slice_down_to)
  have np: "moved_pos Down p (length ?q) = int i"
    using assms(5) by simp
  have run: "down env (Some t) s = drain env Down ?q (started s p\<lparr>pos := int i\<rparr>)"
    unfolding down_def using assms(1) _ q np by (rule migrate_run) (simp add: tp)
  have inv: "invoked (down env (Some t) s) = invoked s @ map (\<lambda>m. (m, Down, int i)) ?q"
    unfolding run using assms(6) by (rule drain_started_ok_invoked)
  have ps: "pos (down env (Some t) s) = int i"
    unfolding run by (rule drain_started_pos)
  have "world (down env (Some t) s) = foldl (\<lambda>w m. snd (step_of Down m w)) (world s) ?q"
    unfolding run using assms(6) by (rule drain_started_ok_world)
  then have w: "world (down env (Some t) s) =
      foldl (\<lambda>w j. snd (down_step (?ms ! j) w)) (world s) (rev [i..<nat p])"
    by (simp add: foldl_map)
  from inv ps w show ?thesis by (simp add: comp_def)
qed

theorem down_to_target_witness:
  "load_delivers sample_env (sample_sys [m001, m002, m003] (Some \<lparr>row_migrations = ''[]'', row_pos = 3\<rparr>)) 3
   \<and> positionOfMigration [m001, m002, m003] ''002'' = 1
   \<and> first_failure Down [m003, m002] [] = None
   \<and> invoked (down sample_env (Some ''002'') (sample_sys [m001, m002, m003] (Some \<lparr>row_migrations = ''[]'', row_pos = 3\<rparr>)))
       = [(m003, Down, 1), (m002, Down, 1)]
   \<and> pos (down sample_env (Some ''002'') (sample_sys [m001, m002, m003] (Some \<lparr>row_migrations = ''[]'', row_pos = 3\<rparr>))) = 1
   \<and> world (down sample_env (Some ''002'') (sample_sys [m001, m002, m003] (Some \<lparr>row_migrations = ''[]'', row_pos = 3\<rparr>)))
       = [''down 003'', ''down 002'']"
proof -
  let ?s = "sample_sys [m001, m002, m003] (Some \<lparr>row_migrations = ''[]'', row_pos = 3\<rparr>)"
  have ld: "load_delivers sample_env ?s 3"
    by (simp add: load_delivers_def sample_env_def sample_sys_def)
  have look: "positionOfMigration (migrations ?s) ''002'' = int 1"
    by (simp add: positionOfMigration_def sample_defs)
  have look': "positionOfMigration [m001, m002, m003] ''002'' = 1"
    by (simp add: positionOfMigration_def sample_defs)
  have idx: "rev [1..<nat 3] = [2, 1]"
    by (simp add: upt_rec numeral_3_eq_3)
  have ff: "first_failure Down (map ((!) (migrations ?s)) (rev [1..<nat 3])) (world ?s) = None"
    unfolding idx by (simp add: sample_defs)
  have ff': "first_failure Down [m003, m002] [] = None"
    by (simp add: sample_defs)
  have ws: "foldl (\<lambda>w j. snd (down_step (migrations ?s ! j) w)) (world ?s) [2, 1]
      = [''down 003'', ''down 002'']"
    by (simp add: sample_defs)
  from down_to_target [OF ld _ _ look _ ff] ld look' ff' show ?thesis
    unfolding idx ws by (simp add: sample_sys_def)
qed

lemma first_failure_index:
  "first_failure d q w = Some (k, e) \<Longrightarrow> k < length q"
proof (induction q arbitrary: w k)
  case Nil
  then show ?case by simp
next
  case (Cons m q)
  then show ?case by (cases "fst (step_of d m w)") auto
qed

text \<open>
  C5. When the migration at index \<open>k\<close> of the slice is the one that reports an error,
  the drain has called the migrations at indices \<open>0\<close> to \<open>k\<close> of the slice, each once,
  and no other; the error is emitted as the last event of the run; the failing migration
  is not called again, and nothing is saved.
\<close>

theorem drain_halts_at_first_failure:
  assumes "first_failure d q (world s) = Some (k, e)"
  shows "k < length q
         \<and> invoked (drain env d q s) = invoked s @ map (\<lambda>m. (m, d, pos s)) (take (Suc k) q)
         \<and> events (drain env d q s) =
             events s @ map (\<lambda>m. EvMigration m d) (take (Suc k) q) @ [EvError e]
         \<and> store (drain env d q s) = store s"
proof -
  have "k < length q"
    using assms by (rule first_failure_index)
  moreover have "invoked (drain env d q s) = invoked s @ map (\<lambda>m. (m, d, pos s)) (take (Suc k) q)"
    unfolding drain_fails [OF assms] by (simp add: emit_fields invoked_run_steps del: take_Suc_Cons)
  moreover have "events (drain env d q s) =
      events s @ map (\<lambda>m. EvMigration m d) (take (Suc k) q) @ [EvError e]"
    unfolding drain_fails [OF assms] by (simp add: emit_fields events_run_steps del: take_Suc_Cons)
  moreover have "store (drain env d q s) = store s"
    unfolding drain_fails [OF assms] by (simp add: emit_fields run_steps_fields)
  ultimately show ?thesis by simp
qed

theorem drain_halts_at_first_failure_witness:
  "first_failure Up [m001, m_bad, m003] [] = Some (1, \<lparr>err_code = None, err_message = ''boom''\<rparr>)
   \<and> invoked (drain sample_env Up [m001, m_bad, m003] (sample_sys [m001, m_bad, m003] None))
       = [(m001, Up, 0), (m_bad, Up, 0)]
   \<and> events (drain sample_env Up [m001, m_bad, m003] (sample_sys [m001, m_bad, m003] None))
       = [EvMigration m001 Up, EvMigration m_bad Up,
          EvError \<lparr>err_code = None, err_message = ''boom''\<rparr>]
   \<and> store (drain sample_env Up [m001, m_bad, m003] (sample_sys [m001, m_bad, m003] None)) = None"
proof -
  let ?s = "sample_sys [m001, m_bad, m003] None"
  have ff: "first_failure Up [m001, m_bad, m003] (world ?s)
      = Some (1, \<lparr>err_code = None, err_message = ''boom''\<rparr>)"
    by (simp add: sample_defs)
  have ff': "first_failure Up [m001, m_bad, m003] []
      = Some (1, \<lparr>err_code = None, err_message = ''boom''\<rparr>)"
    by (simp add: sample_defs)
  from drain_halts_at_first_failure [OF ff, of sample_env] ff' show ?thesis
    by (simp add: sample_sys_def)
qed

text \<open>
  C8. When the connection and the \<open>SELECT\<close> succeed and the table has no row, \<open>load\<close>
  calls its callback without an error and with the default state: the parsed text
  \<open>'[]'\<close>, that is the empty array, and position \<open>0\<close>. It emits no error.
\<close>

theorem load_fresh_default:
  assumes "connect_err env = None" and "select_err env = None" and "store s = None"
    and "json_parse env ''[]'' = Inr (JArr [])"
  shows "load env fn s =
           fn (Inr \<lparr>obj_migrations = JArr [], obj_pos = 0\<rparr>) ((emit EvLoad s)\<lparr>db := True\<rparr>)"
  using assms by (simp add: load_def connectDb_def loadFromDatabase_def emit_def)

theorem load_fresh_default_witness:
  "connect_err sample_env = None \<and> select_err sample_env = None
   \<and> store (sample_sys [m001] None) = None
   \<and> json_parse sample_env ''[]'' = Inr (JArr [])
   \<and> load sample_env (\<lambda>r s. s\<lparr>console := [case r of Inl e \<Rightarrow> ''error'' | Inr obj \<Rightarrow> ''loaded'']\<rparr>)
        (sample_sys [m001] None)
       = (sample_sys [m001] None)\<lparr>db := True, events := [EvLoad], console := [''loaded'']\<rparr>"
proof -
  have h: "connect_err sample_env = None" "select_err sample_env = None"
    "store (sample_sys [m001] None) = None" "json_parse sample_env ''[]'' = Inr (JArr [])"
    by (simp_all add: sample_env_def sample_sys_def)
  from load_fresh_default [OF h,
      of "\<lambda>r s. s\<lparr>console := [case r of Inl e \<Rightarrow> ''error'' | Inr obj \<Rightarrow> ''loaded'']\<rparr>"] h
  show ?thesis by (simp add: sample_sys_def emit_def)
qed

lemma length_js_slice:
  "0 \<le> a \<Longrightarrow> 0 \<le> b \<Longrightarrow>
     length (js_slice xs a b) = min (nat b) (length xs) - min (nat a) (length xs)"
  by (simp add: js_slice_nat)

lemma target_position_range:
  "target_position d ms t = - 1
   \<or> (0 \<le> target_position d ms t \<and> target_position d ms t \<le> int (length ms))"
proof (cases "falsy t")
  case True
  then show ?thesis by (simp add: target_position_def)
next
  case False
  with position_loop_range [of ms "the t" 0 "position_loop ms (the t) 0"]
  show ?thesis by (auto simp: target_position_def positionOfMigration_def)
qed

lemma moved_pos_range:
  assumes "0 \<le> p" "p \<le> int (length ms)" "0 \<le> mp"
  shows "0 \<le> moved_pos d p (length (run_slice d ms p mp))
         \<and> moved_pos d p (length (run_slice d ms p mp)) \<le> int (length ms)"
proof (cases d)
  case Up
  have "length (run_slice Up ms p mp) = min (nat (mp + 1)) (length ms) - min (nat p) (length ms)"
    using assms by (simp add: length_js_slice)
  with assms Up show ?thesis by auto
next
  case Down
  have "length (run_slice Down ms p mp) = min (nat p) (length ms) - min (nat mp) (length ms)"
    using assms by (simp add: length_js_slice)
  with assms Down show ?thesis by auto
qed

lemma unresolved_fields:
  assumes "\<not> falsy t" "target_position d (migrations s) t = - 1"
  shows "invoked (underscore_migrate env d t s) = invoked s"
    and "world (underscore_migrate env d t s) = world s"
    and "store (underscore_migrate env d t s) = store s"
    and "events (underscore_migrate env d t s) = events s"
    and "pos (underscore_migrate env d t s) = pos s"
    and "migrations (underscore_migrate env d t s) = migrations s"
    and "exit_code (underscore_migrate env d t s) = Some 1"
    and "console (underscore_migrate env d t s) =
           console s @ [''Could not find migration: '' @ the t]"
  unfolding underscore_migrate_unresolved [OF assms]
  by (simp_all add: process_exit_def console_error_def)

text \<open>
  C9. When the load delivers a position \<open>p\<close> with \<open>0 \<le> p \<le> N\<close>, the position of the
  set is again between \<open>0\<close> and the number of migrations after the run, whatever the
  direction and the target, resolved or not, and whether or not a migration fails. The
  position is not changed after the slice is computed, so this is also its value then.
\<close>

theorem position_stays_in_range:
  assumes "load_delivers env s p" and "0 \<le> p" and "p \<le> int (length (migrations s))"
  shows "0 \<le> pos (migrate env d t s)
         \<and> pos (migrate env d t s) \<le> int (length (migrations (migrate env d t s)))"
proof (cases "\<not> falsy t \<and> target_position d (migrations s) t = - 1")
  case True
  then have "\<not> falsy t" "target_position d (migrations (started s p)) t = - 1"
    by (simp_all add: started_fields)
  then show ?thesis
    using assms(2,3)
    by (simp add: migrate_loaded [OF assms(1)] unresolved_fields started_fields)
next
  case False
  let ?mp = "target_position d (migrations s) t"
  let ?q = "run_slice d (migrations s) p ?mp"
  from False have res: "falsy t \<or> ?mp \<noteq> - 1" by blast
  have run: "migrate env d t s =
      drain env d ?q (started s p\<lparr>pos := moved_pos d p (length ?q)\<rparr>)"
    using assms(1) res by (rule migrate_run) simp_all
  have "0 \<le> ?mp"
  proof (cases "falsy t")
    case True
    then show ?thesis by (simp add: target_position_def)
  next
    case False
    with res target_position_range [of d "migrations s" t] show ?thesis by auto
  qed
  with assms(2,3) have "0 \<le> moved_pos d p (length ?q)
      \<and> moved_pos d p (length ?q) \<le> int (length (migrations s))"
    by (rule moved_pos_range)
  then show ?thesis
    unfolding run drain_started_pos drain_started_migrations .
qed

theorem position_stays_in_range_witness:
  "load_delivers sample_env (sample_sys [m001, m_bad, m003] (Some \<lparr>row_migrations = ''[]'', row_pos = 1\<rparr>)) 1
   \<and> pos (migrate sample_env Up (Some ''003'') (sample_sys [m001, m_bad, m003] (Some \<lparr>row_migrations = ''[]'', row_pos = 1\<rparr>))) = 3
   \<and> length (migrations (migrate sample_env Up (Some ''003'') (sample_sys [m001, m_bad, m003] (Some \<lparr>row_migrations = ''[]'', row_pos = 1\<rparr>)))) = 3"
proof -
  let ?s = "sample_sys [m001, m_bad, m003] (Some \<lparr>row_migrations = ''[]'', row_pos = 1\<rparr>)"
  have ld: "load_delivers sample_env ?s 1"
    by (simp add: load_delivers_def sample_env_def sample_sys_def)
  have n: "(1::int) \<le> int (length (migrations ?s))"
    by (simp add: sample_sys_def)
  have run: "migrate sample_env Up (Some ''003'') ?s =
      ?s\<lparr>pos := 3, db := True, world := [],
          events := [EvLoad, EvMigration m_bad Up, EvError \<lparr>err_code = None, err_message = ''boom''\<rparr>],
          invoked := [(m_bad, Up, 3)]\<rparr>"
    by (simp add: migrate_def load_def connectDb_def loadFromDatabase_def emit_def
        underscore_migrate_def target_position_def positionOfMigration_def js_slice_def
        sample_defs Let_def)
  from position_stays_in_range [OF ld _ n, of Up "Some ''003''"] ld show ?thesis
    unfolding run by (simp add: sample_sys_def)
qed

text \<open>
  C10. In a run whose load delivers a position \<open>p\<close> with \<open>0 \<le> p \<le> N\<close> and whose
  target is absent or resolved, every call of a migration already sees the position of
  the end of the run, the one computed from the length of the whole slice. When a migration of the slice reports an error, the run
  ends with that error event: nothing is saved, the stored row is the one from before
  the run, and the position in memory is the one a complete run would leave.
\<close>

theorem position_moves_before_first_call:
  assumes "load_delivers env s p"
    and "falsy t \<or> target_position d (migrations s) t \<noteq> - 1"
    and "q = run_slice d (migrations s) p (target_position d (migrations s) t)"
    and "np = moved_pos d p (length q)"
    and "0 \<le> p" and "p \<le> int (length (migrations s))"
  shows "pos (migrate env d t s) = np
         \<and> (case first_failure d q (world s) of
              None \<Rightarrow> invoked (migrate env d t s) = invoked s @ map (\<lambda>m. (m, d, np)) q
            | Some (k, e) \<Rightarrow>
                invoked (migrate env d t s) = invoked s @ map (\<lambda>m. (m, d, np)) (take (Suc k) q)
                \<and> events (migrate env d t s) =
                    events s @ [EvLoad] @ map (\<lambda>m. EvMigration m d) (take (Suc k) q) @ [EvError e]
                \<and> store (migrate env d t s) = store s)"
proof -
  have run: "migrate env d t s = drain env d q (started s p\<lparr>pos := np\<rparr>)"
    using assms(1,2) assms(3) [symmetric] assms(4) [symmetric] by (rule migrate_run)
  have "pos (migrate env d t s) = np"
    unfolding run by (rule drain_started_pos)
  moreover have "case first_failure d q (world s) of
              None \<Rightarrow> invoked (migrate env d t s) = invoked s @ map (\<lambda>m. (m, d, np)) q
            | Some (k, e) \<Rightarrow>
                invoked (migrate env d t s) = invoked s @ map (\<lambda>m. (m, d, np)) (take (Suc k) q)
                \<and> events (migrate env d t s) =
                    events s @ [EvLoad] @ map (\<lambda>m. EvMigration m d) (take (Suc k) q) @ [EvError e]
                \<and> store (migrate env d t s) = store s"
  proof (cases "first_failure d q (world s)")
    case None
    then show ?thesis unfolding run by (simp add: drain_started_ok_invoked)
  next
    case (Some ke)
    then obtain k e where ff: "first_failure d q (world s) = Some (k, e)" by (cases ke) auto
    show ?thesis unfolding run using drain_started_fails [OF ff, where env = env and p = p and np = np]
      by (simp add: ff del: take_Suc_Cons)
  qed
  ultimately show ?thesis ..
qed

theorem position_moves_before_first_call_witness:
  "load_delivers sample_env (sample_sys [m001, m_bad, m003] None) 0
   \<and> run_slice Up [m001, m_bad, m003] 0 (target_position Up [m001, m_bad, m003] None)
       = [m001, m_bad, m003]
   \<and> first_failure Up [m001, m_bad, m003] []
       = Some (1, \<lparr>err_code = None, err_message = ''boom''\<rparr>)
   \<and> pos (migrate sample_env Up None (sample_sys [m001, m_bad, m003] None)) = 3
   \<and> invoked (migrate sample_env Up None (sample_sys [m001, m_bad, m003] None))
       = [(m001, Up, 3), (m_bad, Up, 3)]
   \<and> events (migrate sample_env Up None (sample_sys [m001, m_bad, m003] None))
       = [EvLoad, EvMigration m001 Up, EvMigration m_bad Up,
          EvError \<lparr>err_code = None, err_message = ''boom''\<rparr>]
   \<and> store (migrate sample_env Up None (sample_sys [m001, m_bad, m003] None)) = None"
proof -
  let ?s = "sample_sys [m001, m_bad, m003] None"
  have ld: "load_delivers sample_env ?s 0"
    by (simp add: load_delivers_def sample_env_def sample_sys_def)
  have q: "[m001, m_bad, m003] = run_slice Up (migrations ?s) 0 (target_position Up (migrations ?s) None)"
    by (simp add: sample_sys_def target_position_def js_slice_def)
  have q': "run_slice Up [m001, m_bad, m003] 0 (target_position Up [m001, m_bad, m003] None)
      = [m001, m_bad, m003]"
    by (simp add: target_position_def js_slice_def)
  have np: "3 = moved_pos Up 0 (length [m001, m_bad, m003])"
    by simp
  have ff: "first_failure Up [m001, m_bad, m003] []
      = Some (1, \<lparr>err_code = None, err_message = ''boom''\<rparr>)"
    by (simp add: sample_defs)
  have w: "world ?s = []" "invoked ?s = []" "events ?s = []" "store ?s = None"
    by (simp_all add: sample_sys_def)
  from position_moves_before_first_call [OF ld _ q np] ld q' ff show ?thesis
    unfolding w by simp
qed

text \<open>
  C6, as stated, fails for the empty title. Line 225 takes an empty string for a missing
  target: \<open>up("")\<close> on a set that has no migration of that title runs every pending
  migration and saves.
\<close>

theorem empty_target_counterexample:
  "'''' \<notin> title ` set (migrations (sample_sys [m001] None))
   \<and> store (sample_sys [m001] None) = None
   \<and> invoked (up sample_env (Some '''') (sample_sys [m001] None)) = [(m001, Up, 1)]
   \<and> store (up sample_env (Some '''') (sample_sys [m001] None))
       = Some \<lparr>row_migrations = ''[001]'', row_pos = 1\<rparr>"
  by (simp add: up_def migrate_def load_def connectDb_def loadFromDatabase_def emit_def
      underscore_migrate_def target_position_def js_slice_def save_def saveToDatabase_def
      disconnectDb_def sample_defs Let_def)

text \<open>
  C6, amended. When the target is a non-empty title that no registered migration has,
  the run calls no migration and leaves the world and the stored row as they were,
  whatever the load did. When the load succeeded, the run writes one line with
  \<open>console.error\<close> and ends with \<open>process.exit(1)\<close>, having emitted nothing but \<open>load\<close>.
\<close>

theorem unresolved_target_aborts:
  assumes "t \<noteq> []" and "t \<notin> title ` set (migrations s)"
  shows "invoked (migrate env d (Some t) s) = invoked s
         \<and> world (migrate env d (Some t) s) = world s
         \<and> store (migrate env d (Some t) s) = store s
         \<and> (load_delivers env s p \<longrightarrow>
              exit_code (migrate env d (Some t) s) = Some 1
              \<and> console (migrate env d (Some t) s) = console s @ [''Could not find migration: '' @ t]
              \<and> events (migrate env d (Some t) s) = events s @ [EvLoad])"
proof -
  have nf: "\<not> falsy (Some t)" using assms(1) by simp
  have tp: "target_position d (migrations s') (Some t) = - 1" if "migrations s' = migrations s" for s' :: "'a sys"
    using assms that by (simp add: target_position_def positionOfMigration_absent)
  have keep: "invoked (underscore_migrate env d (Some t) s') = invoked s
      \<and> world (underscore_migrate env d (Some t) s') = world s
      \<and> store (underscore_migrate env d (Some t) s') = store s"
    if "migrations s' = migrations s" "invoked s' = invoked s" "world s' = world s" "store s' = store s"
    for s' :: "'a sys"
    using that by (simp add: unresolved_fields [OF nf tp])
  have "invoked (migrate env d (Some t) s) = invoked s
      \<and> world (migrate env d (Some t) s) = world s
      \<and> store (migrate env d (Some t) s) = store s"
    by (simp add: migrate_def load_def connectDb_def loadFromDatabase_def Let_def emit_def keep
        split: option.splits sum.splits)
  moreover have "exit_code (migrate env d (Some t) s) = Some 1
      \<and> console (migrate env d (Some t) s) = console s @ [''Could not find migration: '' @ t]
      \<and> events (migrate env d (Some t) s) = events s @ [EvLoad]" if ld: "load_delivers env s p"
    by (simp add: migrate_loaded [OF ld] unresolved_fields [OF nf tp] started_fields)
  ultimately show ?thesis by blast
qed

theorem unresolved_target_aborts_witness:
  "''004'' \<notin> title ` set (migrations (sample_sys [m001, m002, m003] None))
   \<and> load_delivers sample_env (sample_sys [m001, m002, m003] None) 0
   \<and> invoked (migrate sample_env Up (Some ''004'') (sample_sys [m001, m002, m003] None)) = []
   \<and> world (migrate sample_env Up (Some ''004'') (sample_sys [m001, m002, m003] None)) = []
   \<and> store (migrate sample_env Up (Some ''004'') (sample_sys [m001, m002, m003] None)) = None
   \<and> exit_code (migrate sample_env Up (Some ''004'') (sample_sys [m001, m002, m003] None)) = Some 1
   \<and> console (migrate sample_env Up (Some ''004'') (sample_sys [m001, m002, m003] None))
       = [''Could not find migration: 004'']
   \<and> events (migrate sample_env Up (Some ''004'') (sample_sys [m001, m002, m003] None)) = [EvLoad]"
proof -
  let ?s = "sample_sys [m001, m002, m003] None"
  have ne: "''004'' \<noteq> []" by simp
  have absent: "''004'' \<notin> title ` set (migrations ?s)"
    by (simp add: sample_defs)
  have ld: "load_delivers sample_env ?s 0"
    by (simp add: load_delivers_def sample_env_def sample_sys_def)
  have w: "world ?s = []" "invoked ?s = []" "events ?s = []" "store ?s = None" "console ?s = []"
    by (simp_all add: sample_sys_def)
  from unresolved_target_aborts [OF ne absent, of sample_env Up 0] absent ld show ?thesis
    unfolding w by simp
qed

text \<open>
  C7, as stated, fails for the unresolved target: \<open>_migrate\<close> reports it with
  \<open>console.error\<close> and ends the process with \<open>process.exit(1)\<close> (lines 228 and 229);
  no \<open>error\<close> event is emitted.
\<close>

theorem unresolved_target_counterexample:
  "''000'' \<notin> title ` set (migrations (sample_sys [m001, m002] None))
   \<and> events (down sample_env (Some ''000'') (sample_sys [m001, m002] None)) = [EvLoad]
   \<and> console (down sample_env (Some ''000'') (sample_sys [m001, m002] None))
       = [''Could not find migration: 000'']
   \<and> exit_code (down sample_env (Some ''000'') (sample_sys [m001, m002] None)) = Some 1"
  by (simp add: down_def migrate_def load_def connectDb_def loadFromDatabase_def emit_def
      underscore_migrate_def target_position_def positionOfMigration_def process_exit_def
      console_error_def sample_defs Let_def)

text \<open>
  C7, amended. A failed connection, a failed \<open>SELECT\<close> whose error code is not
  \<open>ENOENT\<close>, stored titles that do not parse, and a migration that reports an error
  each end the run with one \<open>error\<close> event that carries the error; nothing follows
  it, so nothing is tried again. An unresolved target is not an \<open>error\<close> event: the
  run writes a line with \<open>console.error\<close> and ends the process with status 1.
\<close>

theorem fatal_conditions_surface:
  "(connect_err env = Some e1 \<longrightarrow>
      events (migrate env d t s) = events s @ [EvLoad, EvError e1]
      \<and> invoked (migrate env d t s) = invoked s)
   \<and> (connect_err env = None \<and> select_err env = Some e2 \<and> err_code e2 \<noteq> Some ''ENOENT'' \<longrightarrow>
      events (migrate env d t s) = events s @ [EvLoad, EvError e2]
      \<and> invoked (migrate env d t s) = invoked s)
   \<and> (connect_err env = None \<and> select_err env = None
      \<and> json_parse env (row_migrations
           (case store s of Some r \<Rightarrow> r | None \<Rightarrow> \<lparr>row_migrations = ''[]'', row_pos = 0\<rparr>))
         = Inl msg \<longrightarrow>
      events (migrate env d t s)
        = events s @ [EvLoad, EvError \<lparr>err_code = None, err_message = msg\<rparr>]
      \<and> invoked (migrate env d t s) = invoked s)
   \<and> (load_delivers env s p \<and> (falsy t \<or> target_position d (migrations s) t \<noteq> - 1)
      \<and> first_failure d (run_slice d (migrations s) p (target_position d (migrations s) t))
           (world s) = Some (k, e3) \<longrightarrow>
      events (migrate env d t s)
        = events s @ [EvLoad]
            @ map (\<lambda>m. EvMigration m d)
                (take (Suc k) (run_slice d (migrations s) p (target_position d (migrations s) t)))
            @ [EvError e3])
   \<and> (load_delivers env s p \<and> \<not> falsy t \<and> target_position d (migrations s) t = - 1 \<longrightarrow>
      events (migrate env d t s) = events s @ [EvLoad]
      \<and> console (migrate env d t s) = console s @ [''Could not find migration: '' @ the t]
      \<and> exit_code (migrate env d t s) = Some 1
      \<and> invoked (migrate env d t s) = invoked s)"
proof (intro conjI impI)
  assume "connect_err env = Some e1"
  then show "events (migrate env d t s) = events s @ [EvLoad, EvError e1]"
    and "invoked (migrate env d t s) = invoked s"
    by (simp_all add: migrate_def load_def connectDb_def emit_def)
next
  assume "connect_err env = None \<and> select_err env = Some e2 \<and> err_code e2 \<noteq> Some ''ENOENT''"
  then show "events (migrate env d t s) = events s @ [EvLoad, EvError e2]"
    and "invoked (migrate env d t s) = invoked s"
    by (simp_all add: migrate_def load_def connectDb_def loadFromDatabase_def emit_def)
next
  assume "connect_err env = None \<and> select_err env = None
      \<and> json_parse env (row_migrations
           (case store s of Some r \<Rightarrow> r | None \<Rightarrow> \<lparr>row_migrations = ''[]'', row_pos = 0\<rparr>))
         = Inl msg"
  then show "events (migrate env d t s)
        = events s @ [EvLoad, EvError \<lparr>err_code = None, err_message = msg\<rparr>]"
    and "invoked (migrate env d t s) = invoked s"
    by (simp_all add: migrate_def load_def connectDb_def loadFromDatabase_def emit_def)
next
  let ?q = "run_slice d (migrations s) p (target_position d (migrations s) t)"
  assume a: "load_delivers env s p \<and> (falsy t \<or> target_position d (migrations s) t \<noteq> - 1)
      \<and> first_failure d ?q (world s) = Some (k, e3)"
  then have run: "migrate env d t s =
      drain env d ?q (started s p\<lparr>pos := moved_pos d p (length ?q)\<rparr>)"
    by (intro migrate_run) simp_all
  from a have ff: "first_failure d ?q (world s) = Some (k, e3)" by simp
  show "events (migrate env d t s)
        = events s @ [EvLoad] @ map (\<lambda>m. EvMigration m d) (take (Suc k) ?q) @ [EvError e3]"
    unfolding run by (rule drain_started_fails(2) [OF ff])
next
  assume a: "load_delivers env s p \<and> \<not> falsy t \<and> target_position d (migrations s) t = - 1"
  then have ld: "load_delivers env s p" and nf: "\<not> falsy t"
    and tp: "target_position d (migrations (started s p)) t = - 1"
    by (simp_all add: started_fields)
  show "events (migrate env d t s) = events s @ [EvLoad]"
    and "console (migrate env d t s) = console s @ [''Could not find migration: '' @ the t]"
    and "exit_code (migrate env d t s) = Some 1"
    and "invoked (migrate env d t s) = invoked s"
    by (simp_all add: migrate_loaded [OF ld] unresolved_fields [OF nf tp] started_fields)
qed

theorem fatal_conditions_surface_witness:
  "events (migrate (sample_env\<lparr>connect_err := Some \<lparr>err_code = Some ''ECONNREFUSED'', err_message = ''connect''\<rparr>\<rparr>)
       Up None (sample_sys [m001, m_bad, m003] None))
     = [EvLoad, EvError \<lparr>err_code = Some ''ECONNREFUSED'', err_message = ''connect''\<rparr>]
   \<and> events (migrate (sample_env\<lparr>select_err := Some \<lparr>err_code = Some ''ER_NO_SUCH_TABLE'', err_message = ''no table''\<rparr>\<rparr>)
       Up None (sample_sys [m001, m_bad, m003] None))
     = [EvLoad, EvError \<lparr>err_code = Some ''ER_NO_SUCH_TABLE'', err_message = ''no table''\<rparr>]
   \<and> events (migrate sample_env Up None
       (sample_sys [m001, m_bad, m003] (Some \<lparr>row_migrations = ''[{'', row_pos = 1\<rparr>)))
     = [EvLoad, EvError \<lparr>err_code = None, err_message = ''Unexpected token''\<rparr>]
   \<and> load_delivers sample_env (sample_sys [m001, m_bad, m003] None) 0
   \<and> first_failure Up [m001, m_bad, m003] []
       = Some (1, \<lparr>err_code = None, err_message = ''boom''\<rparr>)
   \<and> events (migrate sample_env Up None (sample_sys [m001, m_bad, m003] None))
     = [EvLoad, EvMigration m001 Up, EvMigration m_bad Up,
        EvError \<lparr>err_code = None, err_message = ''boom''\<rparr>]
   \<and> target_position Up [m001, m_bad, m003] (Some ''004'') = - 1
   \<and> events (migrate sample_env Up (Some ''004'') (sample_sys [m001, m_bad, m003] None)) = [EvLoad]
   \<and> console (migrate sample_env Up (Some ''004'') (sample_sys [m001, m_bad, m003] None))
       = [''Could not find migration: 004'']
   \<and> exit_code (migrate sample_env Up (Some ''004'') (sample_sys [m001, m_bad, m003] None)) = Some 1"
proof -
  let ?s = "sample_sys [m001, m_bad, m003] None"
  let ?econn = "\<lparr>err_code = Some ''ECONNREFUSED'', err_message = ''connect''\<rparr>"
  let ?esel = "\<lparr>err_code = Some ''ER_NO_SUCH_TABLE'', err_message = ''no table''\<rparr>"
  let ?eboom = "\<lparr>err_code = None, err_message = ''boom''\<rparr>"
  let ?bad = "sample_sys [m001, m_bad, m003] (Some \<lparr>row_migrations = ''[{'', row_pos = 1\<rparr>)"
  have w: "events ?s = []" "console ?s = []" "world ?s = []" "store ?s = None"
    "migrations ?s = [m001, m_bad, m003]" "events ?bad = []"
    "store ?bad = Some \<lparr>row_migrations = ''[{'', row_pos = 1\<rparr>"
    by (simp_all add: sample_sys_def)
  have c1: "connect_err (sample_env\<lparr>connect_err := Some ?econn\<rparr>) = Some ?econn"
    by simp
  have c2: "connect_err (sample_env\<lparr>select_err := Some ?esel\<rparr>) = None
      \<and> select_err (sample_env\<lparr>select_err := Some ?esel\<rparr>) = Some ?esel
      \<and> err_code ?esel \<noteq> Some ''ENOENT''"
    by (simp add: sample_env_def)
  have c3: "connect_err sample_env = None \<and> select_err sample_env = None
      \<and> json_parse sample_env (row_migrations
           (case store ?bad of Some r \<Rightarrow> r | None \<Rightarrow> \<lparr>row_migrations = ''[]'', row_pos = 0\<rparr>))
         = Inl ''Unexpected token''"
    by (simp add: sample_env_def w)
  have ld: "load_delivers sample_env ?s 0"
    by (simp add: load_delivers_def sample_env_def sample_sys_def)
  have q: "run_slice Up [m001, m_bad, m003] 0 (target_position Up [m001, m_bad, m003] None)
      = [m001, m_bad, m003]"
    by (simp add: target_position_def js_slice_def)
  have ff: "first_failure Up [m001, m_bad, m003] [] = Some (1, ?eboom)"
    by (simp add: sample_defs)
  have c4: "load_delivers sample_env ?s 0
      \<and> (falsy None \<or> target_position Up (migrations ?s) None \<noteq> - 1)
      \<and> first_failure Up (run_slice Up (migrations ?s) 0 (target_position Up (migrations ?s) None))
           (world ?s) = Some (1, ?eboom)"
    using ld unfolding w q ff by simp
  have tp: "target_position Up [m001, m_bad, m003] (Some ''004'') = - 1"
    by (simp add: target_position_def positionOfMigration_def sample_defs)
  have c5: "load_delivers sample_env ?s 0 \<and> \<not> falsy (Some ''004'')
      \<and> target_position Up (migrations ?s) (Some ''004'') = - 1"
    using ld by (simp add: w tp)
  have r1: "events (migrate (sample_env\<lparr>connect_err := Some ?econn\<rparr>) Up None ?s)
      = [EvLoad, EvError ?econn]"
    using fatal_conditions_surface [where env = "sample_env\<lparr>connect_err := Some ?econn\<rparr>"
        and ?e1.0 = ?econn and d = Up and t = None and s = ?s] c1
    by (simp add: w)
  have r2: "events (migrate (sample_env\<lparr>select_err := Some ?esel\<rparr>) Up None ?s)
      = [EvLoad, EvError ?esel]"
    using fatal_conditions_surface [where env = "sample_env\<lparr>select_err := Some ?esel\<rparr>"
        and ?e2.0 = ?esel and d = Up and t = None and s = ?s] c2
    by (simp add: w)
  have r3: "events (migrate sample_env Up None ?bad)
      = [EvLoad, EvError \<lparr>err_code = None, err_message = ''Unexpected token''\<rparr>]"
    using fatal_conditions_surface [where env = sample_env and msg = "''Unexpected token''"
        and d = Up and t = None and s = ?bad] c3
    by (simp add: w)
  have r4: "events (migrate sample_env Up None ?s)
      = [EvLoad, EvMigration m001 Up, EvMigration m_bad Up, EvError ?eboom]"
    using fatal_conditions_surface [where env = sample_env and p = 0 and k = 1 and ?e3.0 = ?eboom
        and d = Up and t = None and s = ?s] c4
    unfolding w q by simp
  have r5: "events (migrate sample_env Up (Some ''004'') ?s) = [EvLoad]
      \<and> console (migrate sample_env Up (Some ''004'') ?s) = [''Could not find migration: 004'']
      \<and> exit_code (migrate sample_env Up (Some ''004'') ?s) = Some 1"
    using fatal_conditions_surface [where env = sample_env and p = 0
        and d = Up and t = "Some ''004''" and s = ?s] c5
    by (simp add: w)
  from r1 r2 r3 ld ff r4 tp r5 show ?thesis by simp
qed

end
